theory Spec2Isabelle
  imports Complex_Main "HOL-Library.Word"
begin

section \<open>Bytes, exceptions and the socket model\<close>

text \<open>
  A Python \<open>bytes\<close> value is a list of octets.  A TCP socket, seen from the reading
  side, is the list of what is still to arrive: each \<open>Chunk\<close> is a run of bytes that
  the network hands over together, \<open>SockErr\<close> is a read that raises \<open>OSError\<close>
  (reset, socket closed locally), and the end of the list is the orderly close of the peer,
  after which every read returns \<open>b''\<close>.
\<close>

type_synonym byte = "8 word"
type_synonym bytes = "byte list"

datatype exn = OSError | StructError | UnicodeDecodeError | ZlibError | CvError
  | KeyError | TypeError | AttributeError | ZeroDivisionError | OverflowError | ValueError

datatype rx = Chunk bytes | SockErr

type_synonym sock = "rx list"

definition BUFFER_SIZE :: nat where
  "BUFFER_SIZE = 65536"

text \<open>
  \<open>socket.recv(n)\<close>: at most \<open>n\<close> bytes of what has arrived; the rest of a longer
  chunk stays queued.  \<open>None\<close> is the raised \<open>OSError\<close>.
\<close>

fun recv :: "nat \<Rightarrow> sock \<Rightarrow> bytes option \<times> sock" where
  "recv n [] = (Some [], [])"
| "recv n (SockErr # s) = (None, s)"
| "recv n (Chunk bs # s) =
     (if length bs \<le> n then (Some bs, s)
      else (Some (take n bs), Chunk (drop n bs) # s))"

text \<open>The bytes still queued on a socket, and a size that every successful read lowers.\<close>

fun pending :: "sock \<Rightarrow> bytes" where
  "pending [] = []"
| "pending (SockErr # s) = pending s"
| "pending (Chunk bs # s) = bs @ pending s"

fun sock_size :: "sock \<Rightarrow> nat" where
  "sock_size [] = 0"
| "sock_size (SockErr # s) = Suc (sock_size s)"
| "sock_size (Chunk bs # s) = Suc (length bs + sock_size s)"

section \<open>ScreenClient._recv_exact\<close>

text \<open>
  \<^verbatim>\<open>
  def _recv_exact(self, size):
      data = b''
      while len(data) < size:
          chunk = self.socket.recv(min(size - len(data), BUFFER_SIZE))
          if not chunk:
              return None
          data += chunk
      return data
  \<close>
  The result is \<open>Inl e\<close> when the read raises, \<open>Inr None\<close> for Python's \<open>None\<close>
  and \<open>Inr (Some data)\<close> for the bytes; the socket is returned as the loop left it.
\<close>

function recv_exact_loop :: "nat \<Rightarrow> bytes \<Rightarrow> sock \<Rightarrow> (exn + bytes option) \<times> sock" where
  "recv_exact_loop sz data s =
     (if length data < sz then
        (case recv (min (sz - length data) BUFFER_SIZE) s of
           (None, s') \<Rightarrow> (Inl OSError, s')
         | (Some chunk, s') \<Rightarrow>
             if chunk = [] then (Inr None, s')
             else recv_exact_loop sz (data @ chunk) s')
      else (Inr (Some data), s))"
  by pat_completeness auto
termination
proof (relation "measure (\<lambda>(sz, data, s). sz - length data)")
  fix sz :: nat and data chunk :: bytes and s s' :: sock
  assume "length data < sz" and "chunk \<noteq> []"
  then show "((sz, data @ chunk, s'), (sz, data, s)) \<in> measure (\<lambda>(sz, data, s). sz - length data)"
    by (cases chunk) auto
qed simp

declare recv_exact_loop.simps [simp del]

definition recv_exact :: "nat \<Rightarrow> sock \<Rightarrow> (exn + bytes option) \<times> sock" where
  "recv_exact sz s = recv_exact_loop sz [] s"


lemma recv_length: "recv n s = (Some c, s') \<Longrightarrow> length c \<le> n"
  by (induction n s rule: recv.induct) (auto split: if_splits)

lemma recv_sock_size:
  "recv n s = (r, s') \<Longrightarrow>
   sock_size s' + (case r of None \<Rightarrow> 1 | Some c \<Rightarrow> length c) \<le> sock_size s"
  by (induction n s rule: recv.induct) (auto split: if_splits)

lemma recv_pending: "recv n s = (Some c, s') \<Longrightarrow> pending s = c @ pending s'"
  by (induction n s rule: recv.induct) (auto split: if_splits)

lemma recv_exact_loop_length:
  "length data \<le> sz \<Longrightarrow> recv_exact_loop sz data s = (Inr (Some d), s') \<Longrightarrow> length d = sz"
proof (induction sz data s rule: recv_exact_loop.induct)
  case (1 sz data s)
  show ?case
  proof (cases "length data < sz")
    case False
    with "1.prems" show ?thesis by (simp add: recv_exact_loop.simps)
  next
    case True
    obtain r s1 where r: "recv (min (sz - length data) BUFFER_SIZE) s = (r, s1)" by force
    with True "1.prems" obtain chunk where c: "r = Some chunk" "chunk \<noteq> []"
      "recv_exact_loop sz (data @ chunk) s1 = (Inr (Some d), s')"
      by (cases r) (auto simp: recv_exact_loop.simps [of sz data s] split: if_splits)
    from r c have "length chunk \<le> sz - length data" using recv_length by fastforce
    with True have "length (data @ chunk) \<le> sz" by simp
    from "1.IH" [OF True r [symmetric, unfolded c] refl c(2) this c(3)] show ?thesis .
  qed
qed

lemma recv_exact_loop_sock_size:
  "recv_exact_loop sz data s = (r, s') \<Longrightarrow>
   sock_size s' + (case r of Inr (Some d) \<Rightarrow> length d - length data | _ \<Rightarrow> 0) \<le> sock_size s"
proof (induction sz data s arbitrary: r s' rule: recv_exact_loop.induct)
  case (1 sz data s)
  show ?case
  proof (cases "length data < sz")
    case False
    with "1.prems" show ?thesis by (auto simp add: recv_exact_loop.simps)
  next
    case True
    obtain q s1 where q: "recv (min (sz - length data) BUFFER_SIZE) s = (q, s1)" by force
    note sz = recv_sock_size [OF q]
    show ?thesis
    proof (cases q)
      case None
      with True q "1.prems" sz show ?thesis
        by (auto simp: recv_exact_loop.simps [of sz data s])
    next
      case (Some chunk)
      show ?thesis
      proof (cases "chunk = []")
        case True
        with \<open>length data < sz\<close> q Some "1.prems" sz show ?thesis
          by (auto simp: recv_exact_loop.simps [of sz data s])
      next
        case False
        with True q Some "1.prems" have "recv_exact_loop sz (data @ chunk) s1 = (r, s')"
          by (auto simp: recv_exact_loop.simps [of sz data s])
        from "1.IH" [OF True q [symmetric, unfolded Some] refl False this] sz Some
        show ?thesis by (auto split: sum.splits option.splits)
      qed
    qed
  qed
qed

lemma recv_exact_length: "recv_exact sz s = (Inr (Some d), s') \<Longrightarrow> length d = sz"
  using recv_exact_loop_length [of "[]" sz s d s'] by (simp add: recv_exact_def)

lemma recv_exact_sock_size: "recv_exact sz s = (r, s') \<Longrightarrow> sock_size s' \<le> sock_size s"
  using recv_exact_loop_sock_size [of sz "[]" s r s'] by (simp add: recv_exact_def)

lemma recv_exact_consumes:
  "recv_exact sz s = (Inr (Some d), s') \<Longrightarrow> sock_size s' + sz \<le> sock_size s"
  using recv_exact_loop_sock_size [of sz "[]" s "Inr (Some d)" s'] recv_exact_length [of sz s d s']
  by (simp add: recv_exact_def)

section \<open>The wire header\<close>

text \<open>
  \<open>struct.pack('!II', a, b)\<close> and \<open>struct.unpack('!II', header)\<close>: two unsigned
  32-bit integers, big-endian.  Packing a number of 2^32 or more and unpacking anything
  but 8 bytes raise \<open>struct.error\<close>, which is \<open>None\<close> here.
\<close>

definition be_nat :: "bytes \<Rightarrow> nat" where
  "be_nat bs = foldl (\<lambda>a b. a * 256 + unat b) 0 bs"

definition pack_I :: "nat \<Rightarrow> bytes" where
  "pack_I n = [of_nat (n div 2 ^ 24), of_nat (n div 2 ^ 16), of_nat (n div 2 ^ 8), of_nat n]"

definition pack_II :: "nat \<Rightarrow> nat \<Rightarrow> bytes option" where
  "pack_II a b = (if a < 2 ^ 32 \<and> b < 2 ^ 32 then Some (pack_I a @ pack_I b) else None)"

definition unpack_II :: "bytes \<Rightarrow> (nat \<times> nat) option" where
  "unpack_II header =
     (if length header = 8 then Some (be_nat (take 4 header), be_nat (drop 4 header)) else None)"

section \<open>ScreenClient._receive_stream\<close>

text \<open>
  \<^verbatim>\<open>
  def _receive_stream(self):
      while self.running:
          try:
              header = self._recv_exact(8)
              if not header:
                  break
              size, scale = struct.unpack('!II', header)
              data = self._recv_exact(size)
              if not data:
                  break
              buffer = zlib.decompress(data)
              nparr = np.frombuffer(buffer, np.uint8)
              frame = cv2.imdecode(nparr, cv2.IMREAD_COLOR)
              if self.on_frame and frame is not None:
                  self.on_frame(frame)
          except Exception as e:
              print(f"Receive error: {e}")
              break
  \<close>
  The two codecs are libraries, so they are parameters: \<open>decompress\<close> is
  \<open>zlib.decompress\<close> (\<open>None\<close> when it raises \<open>zlib.error\<close>), \<open>imdecode\<close> is
  \<open>cv2.imdecode\<close> on the decompressed bytes (\<open>Inl\<close> when it raises, \<open>Inr None\<close>
  when it returns Python's \<open>None\<close> for bytes that are no image).  \<open>on_frame\<close> tells
  whether a callback is installed; the callback of this program catches every exception
  of its own, so a call to it returns.  \<open>self.running\<close> stays set while the loop runs
  (only \<open>disconnect\<close> clears it, from another thread).  The function returns what the
  loop did, in order, and the socket as the loop left it; \<open>not b''\<close> and \<open>not None\<close>
  are both true in Python, which is the test \<open>= []\<close> after \<open>Some\<close>.
\<close>

datatype 'fr screen_event = OnFrame 'fr | LogReceiveError

function receive_stream ::
  "(bytes \<Rightarrow> bytes option) \<Rightarrow> (bytes \<Rightarrow> exn + 'fr option) \<Rightarrow> bool \<Rightarrow> sock
   \<Rightarrow> 'fr screen_event list \<times> sock" where
  "receive_stream decompress imdecode on_frame s =
     (case recv_exact 8 s of
        (Inl e, s1) \<Rightarrow> ([LogReceiveError], s1)
      | (Inr None, s1) \<Rightarrow> ([], s1)
      | (Inr (Some header), s1) \<Rightarrow>
          if header = [] then ([], s1)
          else (case unpack_II header of
             None \<Rightarrow> ([LogReceiveError], s1)
           | Some (sz, scale_pct) \<Rightarrow>
              (case recv_exact sz s1 of
                 (Inl e, s2) \<Rightarrow> ([LogReceiveError], s2)
               | (Inr None, s2) \<Rightarrow> ([], s2)
               | (Inr (Some data), s2) \<Rightarrow>
                   if data = [] then ([], s2)
                   else (case decompress data of
                      None \<Rightarrow> ([LogReceiveError], s2)
                    | Some buffer \<Rightarrow>
                       (case imdecode buffer of
                          Inl e \<Rightarrow> ([LogReceiveError], s2)
                        | Inr frame \<Rightarrow>
                           (case receive_stream decompress imdecode on_frame s2 of
                              (evs, s3) \<Rightarrow>
                                ((case frame of
                                    Some fr \<Rightarrow> if on_frame then [OnFrame fr] else []
                                  | None \<Rightarrow> []) @ evs, s3)))))))"
  by pat_completeness auto
termination
proof (relation "measure (\<lambda>(decompress, imdecode, on_frame, s). sock_size s)")
  fix decompress :: "bytes \<Rightarrow> bytes option" and imdecode :: "bytes \<Rightarrow> exn + 'fr option"
    and on_frame :: bool and s s1 s2 :: sock and header data :: bytes and sz :: nat
    and r1 r2 :: "exn + bytes option" and o1 o2 :: "bytes option"
  assume "(r1, s1) = recv_exact 8 s" "r1 = Inr o1" "o1 = Some header"
    and "(r2, s2) = recv_exact sz s1"
  then have "sock_size s1 + 8 \<le> sock_size s" "sock_size s2 \<le> sock_size s1"
    using recv_exact_consumes [of 8 s header s1] recv_exact_sock_size [of sz s1 r2 s2]
    by simp_all
  then show "((decompress, imdecode, on_frame, s2), (decompress, imdecode, on_frame, s))
      \<in> measure (\<lambda>(decompress, imdecode, on_frame, s). sock_size s)"
    by simp
qed simp

declare receive_stream.simps [simp del]


section \<open>Control commands\<close>

text \<open>
  A command is what \<open>json.loads\<close> returns: a JSON value.  Python's \<open>str\<close> is a
  \<open>string\<close> here, a character standing for the code point of the same number (so the
  model covers the strings of code points below 256); the type \<open>'f\<close> is Python's
  \<open>float\<close>, which the server never inspects.  An object is the list of its members;
  \<open>cmd[k]\<close> raises \<open>KeyError\<close> on a missing member and \<open>TypeError\<close> when
  \<open>cmd\<close> is no object (a list, a string, a number, \<open>None\<close>).
\<close>

datatype 'f json = JNull | JBool bool | JInt int | JFloat 'f | JStr string
  | JArr "'f json list" | JObj "(string \<times> 'f json) list"

fun getitem :: "'f json \<Rightarrow> string \<Rightarrow> exn + 'f json" where
  "getitem (JObj kvs) k = (case map_of kvs k of None \<Rightarrow> Inl KeyError | Some v \<Rightarrow> Inr v)"
| "getitem _ k = Inl TypeError"

subsection \<open>ControlServer._parse_key\<close>

text \<open>
  \<^verbatim>\<open>
  def _parse_key(self, key_str):
      special_keys = {
          'shift': keyboard.Key.shift, 'ctrl': keyboard.Key.ctrl, 'alt': keyboard.Key.alt,
          'enter': keyboard.Key.enter, 'backspace': keyboard.Key.backspace,
          'tab': keyboard.Key.tab, 'escape': keyboard.Key.esc, 'space': keyboard.Key.space,
          'up': keyboard.Key.up, 'down': keyboard.Key.down, 'left': keyboard.Key.left,
          'right': keyboard.Key.right, 'delete': keyboard.Key.delete,
          'home': keyboard.Key.home, 'end': keyboard.Key.end,
          'page_up': keyboard.Key.page_up, 'page_down': keyboard.Key.page_down,
      }
      for i in range(1, 13):
          special_keys[f'f{i}'] = getattr(keyboard.Key, f'f{i}')
      return special_keys.get(key_str.lower(), key_str)
  \<close>
  The result is a member of \<open>keyboard.Key\<close> or the argument itself.
\<close>

datatype special_key = Key_shift | Key_ctrl | Key_alt | Key_enter | Key_backspace | Key_tab
  | Key_esc | Key_space | Key_up | Key_down | Key_left | Key_right | Key_delete | Key_home
  | Key_end | Key_page_up | Key_page_down | Key_f nat

datatype key = Special special_key | Verbatim string

text \<open>
  \<open>str.lower()\<close> on code points below 256: the letters A to Z and the capital letters of
  Latin-1 (192 to 222, without the multiplication sign 215) move up by 32.
\<close>

definition lower_char :: "char \<Rightarrow> char" where
  "lower_char c =
     (let n = (of_char c :: nat)
      in if (65 \<le> n \<and> n \<le> 90) \<or> (192 \<le> n \<and> n \<le> 222 \<and> n \<noteq> 215)
         then char_of (n + 32) else c)"

definition lower :: "string \<Rightarrow> string" where
  "lower s = map lower_char s"

text \<open>The decimal digits of \<open>i\<close>, as the f-string \<open>f'f{i}'\<close> formats them.\<close>

fun str_nat :: "nat \<Rightarrow> string" where
  "str_nat n =
     (if n < 10 then [char_of (48 + n)] else str_nat (n div 10) @ [char_of (48 + n mod 10)])"

declare str_nat.simps [simp del]

definition special_keys :: "(string \<times> special_key) list" where
  "special_keys =
     [(''shift'', Key_shift), (''ctrl'', Key_ctrl), (''alt'', Key_alt), (''enter'', Key_enter),
      (''backspace'', Key_backspace), (''tab'', Key_tab), (''escape'', Key_esc),
      (''space'', Key_space), (''up'', Key_up), (''down'', Key_down), (''left'', Key_left),
      (''right'', Key_right), (''delete'', Key_delete), (''home'', Key_home),
      (''end'', Key_end), (''page_up'', Key_page_up), (''page_down'', Key_page_down)]
     @ map (\<lambda>i. (''f'' @ str_nat i, Key_f i)) [1..<13]"

definition parse_key :: "string \<Rightarrow> key" where
  "parse_key key_str =
     (case map_of special_keys (lower key_str) of
        Some k \<Rightarrow> Special k
      | None \<Rightarrow> Verbatim key_str)"

subsection \<open>ControlServer._execute_command\<close>

text \<open>
  \<^verbatim>\<open>
  def _execute_command(self, cmd):
      try:
          if cmd['type'] == 'mouse_move':
              self.mouse_ctrl.position = (cmd['x'], cmd['y'])
          elif cmd['type'] == 'mouse_click':
              btn = mouse.Button.left if cmd['button'] == 'left' else mouse.Button.right
              if cmd['action'] == 'press':
                  self.mouse_ctrl.press(btn)
              else:
                  self.mouse_ctrl.release(btn)
          elif cmd['type'] == 'mouse_scroll':
              self.mouse_ctrl.scroll(cmd['dx'], cmd['dy'])
          elif cmd['type'] == 'key':
              key = self._parse_key(cmd['key'])
              if cmd['action'] == 'press':
                  self.keyboard_ctrl.press(key)
              else:
                  self.keyboard_ctrl.release(key)
      except Exception as e:
          print(f"Control error: {e}")
  \<close>
  The effect of a command is the list of calls it makes on the two input controllers, with
  the arguments as the code passes them, and of messages it prints.
  \<open>execute_body\<close> is the \<open>try\<close> block, \<open>Inl\<close> an exception raised in it.

  The keyboard controller is pynput's.  Its \<open>press\<close> and \<open>release\<close> first resolve
  their argument: a member of \<open>keyboard.Key\<close> is taken as it is, a \<open>str\<close> must have
  exactly one character, and any other \<open>str\<close> raises \<open>ValueError\<close> before anything
  is injected.  That is \<open>keyboard_resolve\<close>; the exception is raised inside the
  \<open>try\<close> block.  The mouse calls are recorded with the values handed to them.
\<close>

datatype button = Button_left | Button_right

datatype 'f call =
    Set_position "'f json" "'f json"
  | Mouse_press button
  | Mouse_release button
  | Mouse_scroll "'f json" "'f json"
  | Key_press key
  | Key_release key
  | Log_control_error
  | Close_client

text \<open>\<open>key_str.lower()\<close> exists on a \<open>str\<close> only.\<close>

fun parse_key_arg :: "'f json \<Rightarrow> exn + key" where
  "parse_key_arg (JStr key_str) = Inr (parse_key key_str)"
| "parse_key_arg _ = Inl AttributeError"

definition keyboard_resolve :: "key \<Rightarrow> exn + key" where
  "keyboard_resolve key =
     (case key of
        Special k \<Rightarrow> Inr key
      | Verbatim s \<Rightarrow> if length s = 1 then Inr key else Inl ValueError)"

definition execute_body :: "'f json \<Rightarrow> exn + 'f call list" where
  "execute_body cmd =
     (case getitem cmd ''type'' of
        Inl e \<Rightarrow> Inl e
      | Inr t \<Rightarrow>
          if t = JStr ''mouse_move'' then
            (case getitem cmd ''x'' of
               Inl e \<Rightarrow> Inl e
             | Inr x \<Rightarrow>
                (case getitem cmd ''y'' of
                   Inl e \<Rightarrow> Inl e
                 | Inr y \<Rightarrow> Inr [Set_position x y]))
          else if t = JStr ''mouse_click'' then
            (case getitem cmd ''button'' of
               Inl e \<Rightarrow> Inl e
             | Inr b \<Rightarrow>
                (let btn = (if b = JStr ''left'' then Button_left else Button_right)
                 in case getitem cmd ''action'' of
                      Inl e \<Rightarrow> Inl e
                    | Inr a \<Rightarrow>
                        if a = JStr ''press'' then Inr [Mouse_press btn]
                        else Inr [Mouse_release btn]))
          else if t = JStr ''mouse_scroll'' then
            (case getitem cmd ''dx'' of
               Inl e \<Rightarrow> Inl e
             | Inr dx \<Rightarrow>
                (case getitem cmd ''dy'' of
                   Inl e \<Rightarrow> Inl e
                 | Inr dy \<Rightarrow> Inr [Mouse_scroll dx dy]))
          else if t = JStr ''key'' then
            (case getitem cmd ''key'' of
               Inl e \<Rightarrow> Inl e
             | Inr k \<Rightarrow>
                (case parse_key_arg k of
                   Inl e \<Rightarrow> Inl e
                 | Inr key \<Rightarrow>
                    (case getitem cmd ''action'' of
                       Inl e \<Rightarrow> Inl e
                     | Inr a \<Rightarrow>
                        (case keyboard_resolve key of
                           Inl e \<Rightarrow> Inl e
                         | Inr resolved \<Rightarrow>
                             if a = JStr ''press'' then Inr [Key_press resolved]
                             else Inr [Key_release resolved]))))
          else Inr [])"

definition execute_command :: "'f json \<Rightarrow> 'f call list" where
  "execute_command cmd =
     (case execute_body cmd of Inl e \<Rightarrow> [Log_control_error] | Inr calls \<Rightarrow> calls)"

subsection \<open>ControlServer._handle_client\<close>

text \<open>
  \<^verbatim>\<open>
  def _handle_client(self, client):
      while self.running:
          try:
              data = client.recv(BUFFER_SIZE)
              if not data:
                  break
              cmd = json.loads(data.decode())
              self._execute_command(cmd)
          except:
              break
      client.close()
  \<close>
  \<open>loads\<close> is \<open>json.loads(data.decode())\<close>, a library: \<open>None\<close> when the bytes are
  no UTF-8 or no JSON text and either call raises.  \<open>self.running\<close> stays set while the
  loop runs.  The function returns the calls made, ending with the close of the connection,
  and what was still unread on the socket when it was closed.
\<close>

function handle_client :: "(bytes \<Rightarrow> 'f json option) \<Rightarrow> sock \<Rightarrow> 'f call list \<times> sock" where
  "handle_client loads s =
     (case recv BUFFER_SIZE s of
        (None, s') \<Rightarrow> ([Close_client], s')
      | (Some data, s') \<Rightarrow>
          if data = [] then ([Close_client], s')
          else (case loads data of
             None \<Rightarrow> ([Close_client], s')
           | Some cmd \<Rightarrow>
              (case handle_client loads s' of
                 (calls, s'') \<Rightarrow> (execute_command cmd @ calls, s''))))"
  by pat_completeness auto
termination
proof (relation "measure (\<lambda>(loads, s). sock_size s)")
  fix loads :: "bytes \<Rightarrow> 'f json option" and s s' :: sock and data :: bytes
    and r :: "bytes option"
  assume "(r, s') = recv BUFFER_SIZE s" "r = Some data" "data \<noteq> []"
  then have "sock_size s' + length data \<le> sock_size s"
    using recv_sock_size [of BUFFER_SIZE s r s'] by simp
  with \<open>data \<noteq> []\<close> show "((loads, s'), (loads, s)) \<in> measure (\<lambda>(loads, s). sock_size s)"
    by (cases data) auto
qed simp

declare handle_client.simps [simp del]

subsection \<open>ControlClient\<close>

text \<open>
  \<^verbatim>\<open>
  def send_mouse_move(self, x, y):
      if self.connected:
          self._send({'type': 'mouse_move', 'x': int(x / self.scale), 'y': int(y / self.scale)})

  def _send(self, cmd):
      try:
          self.socket.sendall(json.dumps(cmd).encode())
      except:
          self.connected = False
  \<close>
  The client is its two fields and its socket: \<open>link_up\<close> tells whether \<open>sendall\<close>
  succeeds, \<open>wire\<close> is the list of byte strings written so far, one per \<open>sendall\<close>.
  \<open>dumps\<close> is \<open>json.dumps(cmd).encode()\<close>.  The coordinates are integers (the
  positions of window events) and the scale is a \<open>float\<close>, so \<open>x / self.scale\<close> is
  Python's float division and \<open>int\<close> its truncation of a float: \<open>fdiv\<close> and
  \<open>ftrunc\<close>, with \<open>Inl\<close> for what they raise (\<open>ZeroDivisionError\<close>, and
  \<open>OverflowError\<close> or \<open>ValueError\<close> for an infinity or a NaN).  An exception raised
  while the record is built leaves \<open>send_mouse_move\<close> before anything is sent.
\<close>

record 'f control_client =
  connected :: bool
  scale :: 'f
  link_up :: bool
  wire :: "bytes list"

definition send :: "('g json \<Rightarrow> bytes) \<Rightarrow> 'f control_client \<Rightarrow> 'g json \<Rightarrow> 'f control_client" where
  "send dumps c cmd =
     (if link_up c then c\<lparr>wire := wire c @ [dumps cmd]\<rparr> else c\<lparr>connected := False\<rparr>)"

definition send_mouse_move ::
  "(int \<Rightarrow> 'f \<Rightarrow> exn + 'f) \<Rightarrow> ('f \<Rightarrow> exn + int) \<Rightarrow> ('g json \<Rightarrow> bytes)
   \<Rightarrow> 'f control_client \<Rightarrow> int \<Rightarrow> int \<Rightarrow> exn + 'f control_client" where
  "send_mouse_move fdiv ftrunc dumps c x y =
     (if connected c then
        (case fdiv x (scale c) of
           Inl e \<Rightarrow> Inl e
         | Inr qx \<Rightarrow>
            (case ftrunc qx of
               Inl e \<Rightarrow> Inl e
             | Inr ix \<Rightarrow>
                (case fdiv y (scale c) of
                   Inl e \<Rightarrow> Inl e
                 | Inr qy \<Rightarrow>
                    (case ftrunc qy of
                       Inl e \<Rightarrow> Inl e
                     | Inr iy \<Rightarrow>
                        Inr (send dumps c
                          (JObj [(''type'', JStr ''mouse_move''),
                                 (''x'', JInt ix), (''y'', JInt iy)]))))))
      else Inr c)"

text \<open>
  \<^verbatim>\<open>
  def send_mouse_click(self, button, action):
      if self.connected:
          self._send({'type': 'mouse_click', 'button': button, 'action': action})
  def send_mouse_scroll(self, dx, dy):
      if self.connected:
          self._send({'type': 'mouse_scroll', 'dx': dx, 'dy': dy})
  def send_key(self, key, action):
      if self.connected:
          self._send({'type': 'key', 'key': key, 'action': action})
  \<close>
\<close>

definition send_mouse_click ::
  "('g json \<Rightarrow> bytes) \<Rightarrow> 'f control_client \<Rightarrow> string \<Rightarrow> string \<Rightarrow> 'f control_client" where
  "send_mouse_click dumps c button action =
     (if connected c then
        send dumps c (JObj [(''type'', JStr ''mouse_click''),
                            (''button'', JStr button), (''action'', JStr action)])
      else c)"

definition send_mouse_scroll ::
  "('g json \<Rightarrow> bytes) \<Rightarrow> 'f control_client \<Rightarrow> int \<Rightarrow> int \<Rightarrow> 'f control_client" where
  "send_mouse_scroll dumps c dx dy =
     (if connected c then
        send dumps c (JObj [(''type'', JStr ''mouse_scroll''), (''dx'', JInt dx), (''dy'', JInt dy)])
      else c)"

definition send_key ::
  "('g json \<Rightarrow> bytes) \<Rightarrow> 'f control_client \<Rightarrow> string \<Rightarrow> string \<Rightarrow> 'f control_client" where
  "send_key dumps c key action =
     (if connected c then
        send dumps c (JObj [(''type'', JStr ''key''), (''key'', JStr key), (''action'', JStr action)])
      else c)"

section \<open>ScreenServer: one broadcast pass\<close>

text \<open>
  \<^verbatim>\<open>
  header = struct.pack('!II', len(data), int(scale * 100))
  dead_clients = []
  for client in self.clients:
      try:
          client.sendall(header + data)
      except:
          dead_clients.append(client)
  for client in dead_clients:
      self.clients.remove(client)
  \<close>
  A viewer is a value of any type \<open>'v\<close>; \<open>sendall_ok\<close> tells for which viewers the
  write of this cycle succeeds.  \<open>send_to_all\<close> is the first loop: it returns what was
  written to whom, in order, and \<open>dead_clients\<close>.  \<open>remove_clients\<close> is the second
  loop; \<open>list.remove\<close> deletes the first equal element and raises \<open>ValueError\<close> when
  there is none.  \<open>broadcast\<close> is the whole fragment on the viewer list \<open>clients\<close>.
\<close>

fun send_to_all :: "('v \<Rightarrow> bool) \<Rightarrow> bytes \<Rightarrow> 'v list \<Rightarrow> ('v \<times> bytes) list \<times> 'v list" where
  "send_to_all sendall_ok packet [] = ([], [])"
| "send_to_all sendall_ok packet (client # clients) =
     (case send_to_all sendall_ok packet clients of
        (sent, dead_clients) \<Rightarrow>
          if sendall_ok client then ((client, packet) # sent, dead_clients)
          else (sent, client # dead_clients))"

fun remove_clients :: "'v list \<Rightarrow> 'v list \<Rightarrow> exn + 'v list" where
  "remove_clients [] clients = Inr clients"
| "remove_clients (client # dead_clients) clients =
     (if client \<in> set clients then remove_clients dead_clients (remove1 client clients)
      else Inl ValueError)"

definition broadcast ::
  "('v \<Rightarrow> bool) \<Rightarrow> nat \<Rightarrow> bytes \<Rightarrow> 'v list \<Rightarrow> exn + ('v \<times> bytes) list \<times> 'v list" where
  "broadcast sendall_ok scale_pct data clients =
     (case pack_II (length data) scale_pct of
        None \<Rightarrow> Inl StructError
      | Some header \<Rightarrow>
         (case send_to_all sendall_ok (header @ data) clients of
            (sent, dead_clients) \<Rightarrow>
              (case remove_clients dead_clients clients of
                 Inl e \<Rightarrow> Inl e
               | Inr clients' \<Rightarrow> Inr (sent, clients'))))"

section \<open>File transfer\<close>

subsection \<open>FileClient.send_file\<close>

text \<open>
  \<^verbatim>\<open>
  filename = os.path.basename(filepath)
  file_size = os.path.getsize(filepath)
  header = struct.pack('!II', len(filename.encode()), file_size)
  sock.sendall(header)
  sock.sendall(filename.encode())
  with open(filepath, 'rb') as f:
      while True:
          chunk = f.read(BUFFER_SIZE)
          if not chunk:
              break
          sock.sendall(chunk)
  sock.close()
  return True
  \<close>
  with \<open>return False\<close> in the handler of every exception.  The file is its base name and
  its content; \<open>encode\<close> is \<open>str.encode\<close>.  The connection is taken to be up, so the
  only exception left is the \<open>struct.error\<close> of a length that does not fit 32 bits.  The
  result is the returned flag and the byte strings written, one per \<open>sendall\<close>.
\<close>

function read_chunks :: "bytes \<Rightarrow> bytes list" where
  "read_chunks content =
     (let chunk = take BUFFER_SIZE content
      in if chunk = [] then [] else chunk # read_chunks (drop BUFFER_SIZE content))"
  by pat_completeness auto
termination
  by (relation "measure length") (auto simp: BUFFER_SIZE_def)

declare read_chunks.simps [simp del]

definition send_file :: "('name \<Rightarrow> bytes) \<Rightarrow> 'name \<Rightarrow> bytes \<Rightarrow> bool \<times> bytes list" where
  "send_file encode filename content =
     (case pack_II (length (encode filename)) (length content) of
        None \<Rightarrow> (False, [])
      | Some header \<Rightarrow> (True, [header, encode filename] @ read_chunks content))"

subsection \<open>FileServer._receive_file\<close>

text \<open>
  \<^verbatim>\<open>
  def _receive_file(self, client):
      try:
          header = client.recv(8)
          name_len, file_size = struct.unpack('!II', header)
          filename = client.recv(name_len).decode()
          filepath = os.path.join(self.save_dir, filename)
          received = 0
          with open(filepath, 'wb') as f:
              while received < file_size:
                  chunk = client.recv(min(BUFFER_SIZE, file_size - received))
                  if not chunk:
                      break
                  f.write(chunk)
                  received += len(chunk)
          print(f"Received file: {filename} ({file_size} bytes)")
      except Exception as e:
          print(f"File receive error: {e}")
      finally:
          client.close()
  \<close>
  \<open>copy_loop\<close> is the \<open>while\<close> loop, \<open>f\<close> the bytes written to the open file so
  far.  The disk is a map from paths to contents.  \<open>decode\<close> is \<open>bytes.decode\<close>
  (\<open>None\<close> when it raises), \<open>join\<close> is \<open>os.path.join(self.save_dir, _)\<close> and
  \<open>can_open\<close> tells whether \<open>open(filepath, 'wb')\<close> succeeds; opening truncates the
  file, and the \<open>with\<close> block closes it with what was written, also when a read raises.
  The result is the disk, the messages printed and the socket as it was when closed.
\<close>

datatype 'name file_event = Log_received 'name nat | Log_file_error

function copy_loop :: "nat \<Rightarrow> nat \<Rightarrow> bytes \<Rightarrow> sock \<Rightarrow> (exn + unit) \<times> bytes \<times> sock" where
  "copy_loop file_size received f s =
     (if received < file_size then
        (case recv (min BUFFER_SIZE (file_size - received)) s of
           (None, s') \<Rightarrow> (Inl OSError, f, s')
         | (Some chunk, s') \<Rightarrow>
             if chunk = [] then (Inr (), f, s')
             else copy_loop file_size (received + length chunk) (f @ chunk) s')
      else (Inr (), f, s))"
  by pat_completeness auto
termination
proof (relation "measure (\<lambda>(file_size, received, f, s). file_size - received)")
  fix file_size received :: nat and f chunk :: bytes and s s' :: sock
  assume "received < file_size" and "chunk \<noteq> []"
  then show "((file_size, received + length chunk, f @ chunk, s'), (file_size, received, f, s))
      \<in> measure (\<lambda>(file_size, received, f, s). file_size - received)"
    by (cases chunk) auto
qed simp

declare copy_loop.simps [simp del]

definition receive_file ::
  "(bytes \<Rightarrow> 'name option) \<Rightarrow> ('name \<Rightarrow> 'path) \<Rightarrow> ('path \<Rightarrow> bool) \<Rightarrow> sock
   \<Rightarrow> ('path \<rightharpoonup> bytes) \<Rightarrow> ('path \<rightharpoonup> bytes) \<times> 'name file_event list \<times> sock" where
  "receive_file decode join can_open s disk =
     (case recv 8 s of
        (None, s1) \<Rightarrow> (disk, [Log_file_error], s1)
      | (Some header, s1) \<Rightarrow>
         (case unpack_II header of
            None \<Rightarrow> (disk, [Log_file_error], s1)
          | Some (name_len, file_size) \<Rightarrow>
             (case recv name_len s1 of
                (None, s2) \<Rightarrow> (disk, [Log_file_error], s2)
              | (Some name_bytes, s2) \<Rightarrow>
                 (case decode name_bytes of
                    None \<Rightarrow> (disk, [Log_file_error], s2)
                  | Some filename \<Rightarrow>
                     (let filepath = join filename
                      in if \<not> can_open filepath then (disk, [Log_file_error], s2)
                         else (case copy_loop file_size 0 [] s2 of
                            (Inl e, f, s3) \<Rightarrow> (disk(filepath \<mapsto> f), [Log_file_error], s3)
                          | (Inr u, f, s3) \<Rightarrow>
                              (disk(filepath \<mapsto> f), [Log_received filename file_size], s3)))))))"

section \<open>Concrete values for running the model\<close>

text \<open>
  \<open>ascii\<close> is \<open>str.encode()\<close> on a text of ASCII characters: one byte per character.
\<close>

definition ascii :: "string \<Rightarrow> bytes" where
  "ascii text = map (\<lambda>c. of_nat (of_char c)) text"

subsection \<open>Python's float\<close>

text \<open>
  A \<open>float\<close> is an IEEE binary64 number: a finite value, which is a rational number, an
  infinity with its sign (\<open>True\<close> for the negative one), or a NaN.  The sign of a zero is
  not kept; nothing below depends on it.  \<open>round64\<close> rounds a rational to the nearest
  binary64 number, ties to the even significand: the unit in the last place is
  \<open>2 ^ (e - 52)\<close> for a value in \<open>[2 ^ e, 2 ^ (e + 1))\<close>, and \<open>2 ^ (-1074)\<close> below
  \<open>2 ^ (-1022)\<close>; a result of \<open>2 ^ 1024\<close> or more (its \<open>floor_log2\<close> is 1024 or
  more) is an infinity.  \<open>floor_log2 q\<close> is the \<open>e\<close> with \<open>2 ^ e \<le> q < 2 ^ (e + 1)\<close>
  for a positive \<open>q\<close>, and \<open>bit_length\<close> is the number of binary digits.
\<close>

datatype pyfloat = Finite rat | Infinite bool | NaN

fun bit_length :: "nat \<Rightarrow> nat" where
  "bit_length n = (if n = 0 then 0 else Suc (bit_length (n div 2)))"

declare bit_length.simps [simp del]

definition floor_log2 :: "rat \<Rightarrow> int" where
  "floor_log2 q =
     (if 1 \<le> q then int (bit_length (nat \<lfloor>q\<rfloor>)) - 1
      else - int (bit_length (nat (\<lceil>1 / q\<rceil> - 1))))"

definition pow2 :: "int \<Rightarrow> rat" where
  "pow2 k = (if 0 \<le> k then 2 ^ nat k else 1 / 2 ^ nat (- k))"

definition round_even :: "rat \<Rightarrow> int" where
  "round_even q =
     (let n = \<lfloor>q\<rfloor>; r = q - of_int n
      in if r < 1 / 2 then n else if 1 / 2 < r then n + 1
         else if even n then n else n + 1)"

definition round64 :: "rat \<Rightarrow> pyfloat" where
  "round64 q =
     (if q = 0 then Finite 0
      else (let a = \<bar>q\<bar>;
                e = floor_log2 a;
                u = pow2 (max e (- 1022) - 52);
                r = of_int (round_even (a / u)) * u
            in if 0 < r \<and> 1024 \<le> floor_log2 r then Infinite (q < 0)
               else Finite (if 0 < q then r else - r)))"

text \<open>
  \<open>x / s\<close> for an \<open>int\<close> \<open>x\<close> and a \<open>float\<close> \<open>s\<close>: \<open>x\<close> is converted to a
  \<open>float\<close> (\<open>OverflowError\<close> when it is too large), a zero divisor raises
  \<open>ZeroDivisionError\<close>, and the quotient is rounded.  \<open>int(f)\<close> cuts the fraction off
  towards zero and raises on an infinity and on a NaN.
\<close>

definition float_div :: "int \<Rightarrow> pyfloat \<Rightarrow> exn + pyfloat" where
  "float_div x s =
     (case round64 (of_int x) of
        Finite fx \<Rightarrow>
          (case s of
             Finite d \<Rightarrow> if d = 0 then Inl ZeroDivisionError else Inr (round64 (fx / d))
           | Infinite neg \<Rightarrow> Inr (Finite 0)
           | NaN \<Rightarrow> Inr NaN)
      | Infinite neg \<Rightarrow> Inl OverflowError
      | NaN \<Rightarrow> Inl OverflowError)"

definition float_int :: "pyfloat \<Rightarrow> exn + int" where
  "float_int f =
     (case f of
        Finite q \<Rightarrow> Inr (if 0 \<le> q then \<lfloor>q\<rfloor> else \<lceil>q\<rceil>)
      | Infinite neg \<Rightarrow> Inl OverflowError
      | NaN \<Rightarrow> Inl ValueError)"

subsection \<open>json.dumps\<close>

text \<open>
  \<open>json.dumps(cmd).encode()\<close> with the defaults of the library: members and items are
  separated by a comma and a space, a key from its value by a colon and a space; in a
  string the quote and the backslash are escaped, the control characters have their short
  or their \<open>\u00XX\<close> form, and every character outside the range from the space to the
  tilde is written as \<open>\u00XX\<close>, so the text is ASCII.  \<open>float_text\<close> writes a float.
\<close>

definition str_int :: "int \<Rightarrow> string" where
  "str_int i = (if i < 0 then CHR ''-'' # str_nat (nat (- i)) else str_nat (nat i))"

definition hex_digit :: "nat \<Rightarrow> char" where
  "hex_digit d = ''0123456789abcdef'' ! (d mod 16)"

definition escape_char :: "char \<Rightarrow> string" where
  "escape_char c =
     (let n = (of_char c :: nat)
      in if n = 34 then [CHR 0x5C, CHR 0x22]
         else if n = 92 then [CHR 0x5C, CHR 0x5C]
         else if n = 8 then [CHR 0x5C, CHR ''b'']
         else if n = 12 then [CHR 0x5C, CHR ''f'']
         else if n = 10 then [CHR 0x5C, CHR ''n'']
         else if n = 13 then [CHR 0x5C, CHR ''r'']
         else if n = 9 then [CHR 0x5C, CHR ''t'']
         else if n < 32 \<or> 126 < n then
           [CHR 0x5C, CHR ''u'', CHR ''0'', CHR ''0'', hex_digit (n div 16), hex_digit n]
         else [c])"

definition quote :: "string \<Rightarrow> string" where
  "quote s = CHR 0x22 # concat (map escape_char s) @ [CHR 0x22]"

fun join_items :: "string list \<Rightarrow> string" where
  "join_items [] = []"
| "join_items [x] = x"
| "join_items (x # y # ys) = x @ '', '' @ join_items (y # ys)"

fun json_text :: "('g \<Rightarrow> string) \<Rightarrow> 'g json \<Rightarrow> string" where
  "json_text float_text JNull = ''null''"
| "json_text float_text (JBool b) = (if b then ''true'' else ''false'')"
| "json_text float_text (JInt i) = str_int i"
| "json_text float_text (JFloat f) = float_text f"
| "json_text float_text (JStr s) = quote s"
| "json_text float_text (JArr items) =
     ''['' @ join_items (map (json_text float_text) items) @ '']''"
| "json_text float_text (JObj members) =
     ''{'' @ join_items (map (\<lambda>member. quote (fst member) @ '': '' @
                          json_text float_text (snd member)) members) @ ''}''"

definition json_dumps :: "('g \<Rightarrow> string) \<Rightarrow> 'g json \<Rightarrow> bytes" where
  "json_dumps float_text cmd = ascii (json_text float_text cmd)"

section \<open>Verified properties\<close>

subsection \<open>Reading an exact number of bytes\<close>

text \<open>
  C8.  For every \<open>n\<close>, \<open>_recv_exact(n)\<close> either raises (the socket read failed),
  returns \<open>None\<close>, or returns a byte string of exactly \<open>n\<close> bytes: never a shorter,
  partial one.  For \<open>n = 0\<close> it returns the empty byte string and leaves the socket
  untouched, so no read is made.  The function is total on every finite arrival sequence.
\<close>

theorem recv_exact_all_or_nothing:
  "((\<exists>e. fst (recv_exact n s) = Inl e) \<or> fst (recv_exact n s) = Inr None \<or>
    (\<exists>d. fst (recv_exact n s) = Inr (Some d) \<and> length d = n)) \<and>
   recv_exact 0 s = (Inr (Some []), s)"
proof
  obtain r s' where r: "recv_exact n s = (r, s')" by force
  show "(\<exists>e. fst (recv_exact n s) = Inl e) \<or> fst (recv_exact n s) = Inr None \<or>
    (\<exists>d. fst (recv_exact n s) = Inr (Some d) \<and> length d = n)"
  proof (cases r)
    case (Inl e)
    with r show ?thesis by simp
  next
    case (Inr v)
    show ?thesis
    proof (cases v)
      case None
      with r Inr show ?thesis by simp
    next
      case (Some d)
      with r Inr have "length d = n" using recv_exact_length by blast
      with r Inr Some show ?thesis by simp
    qed
  qed
next
  show "recv_exact 0 s = (Inr (Some []), s)"
    by (simp add: recv_exact_def recv_exact_loop.simps)
qed

text \<open>
  Three runs of \<open>_recv_exact(3)\<close>: the bytes arrive in two pieces and are joined; the peer
  closes after two bytes; the read fails after two bytes.
\<close>

lemma recv_exact_example:
  "recv_exact 3 [Chunk [1, 2], Chunk [3, 4]] = (Inr (Some [1, 2, 3]), [Chunk [4]]) \<and>
   recv_exact 3 [Chunk [1, 2]] = (Inr None, []) \<and>
   recv_exact 3 [Chunk [1, 2], SockErr, Chunk [3]] = (Inl OSError, [Chunk [3]])"
  by (simp add: recv_exact_def recv_exact_loop.simps BUFFER_SIZE_def)

subsection \<open>A frame without payload\<close>

text \<open>
  C5, as the code has it.  A frame header with \<open>payload_length = 0\<close> does not block the
  reader: \<open>_recv_exact(0)\<close> returns the empty byte string at once and reads nothing.  The
  read loop then stops, as it does at a closed connection: the empty payload is falsy, so
  \<open>if not data: break\<close> fires.  No callback is made, nothing is printed, and what
  follows on the socket stays unread.
\<close>

theorem empty_frame_ends_loop:
  assumes "recv_exact 8 s = (Inr (Some header), s1)"
    and "unpack_II header = Some (0, scale_pct)"
  shows "recv_exact 0 s1 = (Inr (Some []), s1) \<and>
         receive_stream decompress imdecode on_frame s = ([], s1)"
proof -
  have z: "recv_exact 0 s1 = (Inr (Some []), s1)"
    by (simp add: recv_exact_def recv_exact_loop.simps)
  from assms(2) have "header \<noteq> []" by (auto simp: unpack_II_def split: if_splits)
  with assms z show ?thesis
    by (simp add: receive_stream.simps [of _ _ _ s])
qed

theorem empty_frame_ends_loop_witness:
  "recv_exact 0 [Chunk [9]] = (Inr (Some []), [Chunk [9]]) \<and>
   receive_stream Some (Inr \<circ> Some) True [Chunk [0, 0, 0, 0, 0, 0, 0, 100], Chunk [9]]
     = ([] :: bytes screen_event list, [Chunk [9]])"
proof -
  have h: "recv_exact 8 [Chunk [0, 0, 0, 0, 0, 0, 0, 100], Chunk [9]]
      = (Inr (Some [0, 0, 0, 0, 0, 0, 0, 100]), [Chunk [9]])"
    by (simp add: recv_exact_def recv_exact_loop.simps BUFFER_SIZE_def)
  have u: "unpack_II [0, 0, 0, 0, 0, 0, 0, 100] = Some (0, 100)"
    by (simp add: unpack_II_def be_nat_def)
  from empty_frame_ends_loop [OF h u] show ?thesis .
qed

text \<open>
  C5 as stated fails: an empty frame is followed by a frame of one payload byte, which
  both codecs accept here.  The loop ends after the empty frame; the second frame is never
  read and never shown.
\<close>

theorem empty_frame_counterexample:
  "receive_stream Some (Inr \<circ> Some) True
     [Chunk [0, 0, 0, 0, 0, 0, 0, 100], Chunk [0, 0, 0, 1, 0, 0, 0, 100, 7]]
   = ([] :: bytes screen_event list, [Chunk [0, 0, 0, 1, 0, 0, 0, 100, 7]])"
  by (simp add: receive_stream.simps recv_exact_def recv_exact_loop.simps BUFFER_SIZE_def
      unpack_II_def be_nat_def)

text \<open>The same second frame alone is read, decoded and handed to the callback.\<close>

lemma single_frame_example:
  "receive_stream Some (Inr \<circ> Some) True [Chunk [0, 0, 0, 1, 0, 0, 0, 100, 7]]
   = ([OnFrame [7]], [])"
  by (simp add: receive_stream.simps recv_exact_def recv_exact_loop.simps BUFFER_SIZE_def
      unpack_II_def be_nat_def)

subsection \<open>A corrupt frame\<close>

text \<open>
  C2, as the code has it.  Take a frame that was read whole, with a payload that is not
  empty.  If the payload does not decompress, \<open>zlib.decompress\<close> raises: the failure is
  printed and the read loop ends, with the rest of the stream unread.  If the payload
  decompresses but is no image, \<open>cv2.imdecode\<close> returns \<open>None\<close>: the frame is skipped
  without a message and the loop goes on with the next header.
\<close>

theorem corrupt_frame:
  assumes "recv_exact 8 s = (Inr (Some header), s1)"
    and "unpack_II header = Some (sz, scale_pct)"
    and "recv_exact sz s1 = (Inr (Some data), s2)"
    and "data \<noteq> []"
  shows "(decompress data = None \<longrightarrow>
            receive_stream decompress imdecode on_frame s = ([LogReceiveError], s2)) \<and>
         (\<forall>buffer. decompress data = Some buffer \<and> imdecode buffer = Inr None \<longrightarrow>
            receive_stream decompress imdecode on_frame s =
            receive_stream decompress imdecode on_frame s2)"
proof -
  from assms(2) have "header \<noteq> []" by (auto simp: unpack_II_def split: if_splits)
  with assms show ?thesis
    by (simp add: receive_stream.simps [of _ _ _ s])
qed

text \<open>
  Two runs on a frame with the payload byte 9 followed by a frame with the payload byte 7,
  under two choices of the codecs.  In the first run only the payload 7 decompresses; in
  the second both payloads do, and only the bytes 7 are an image.
\<close>

theorem corrupt_frame_witness:
  "receive_stream (Map.empty([7] \<mapsto> [7])) (Inr \<circ> Some) True
     [Chunk [0, 0, 0, 1, 0, 0, 0, 100, 9], Chunk [0, 0, 0, 1, 0, 0, 0, 100, 7]]
     = ([LogReceiveError], [Chunk [0, 0, 0, 1, 0, 0, 0, 100, 7]]) \<and>
   receive_stream Some (Inr \<circ> (Map.empty([7] \<mapsto> [7 :: byte]))) True
     [Chunk [0, 0, 0, 1, 0, 0, 0, 100, 9], Chunk [0, 0, 0, 1, 0, 0, 0, 100, 7]]
     = ([OnFrame [7]], [])"
proof -
  let ?f2 = "[Chunk [0, 0, 0, 1, 0, 0, 0, 100, 7]]"
  let ?s = "Chunk [0, 0, 0, 1, 0, 0, 0, 100, 9] # ?f2"
  have h: "recv_exact 8 ?s = (Inr (Some [0, 0, 0, 1, 0, 0, 0, 100]), Chunk [9] # ?f2)"
    by (simp add: recv_exact_def recv_exact_loop.simps BUFFER_SIZE_def)
  have u: "unpack_II [0, 0, 0, 1, 0, 0, 0, 100] = Some (1, 100)"
    by (simp add: unpack_II_def be_nat_def)
  have d: "recv_exact 1 (Chunk [9] # ?f2) = (Inr (Some [9]), ?f2)"
    by (simp add: recv_exact_def recv_exact_loop.simps BUFFER_SIZE_def)
  have n: "[9 :: byte] \<noteq> []" by simp
  have rest: "receive_stream Some (Inr \<circ> (Map.empty([7] \<mapsto> [7 :: byte]))) True ?f2 = ([OnFrame [7]], [])"
    by (simp add: receive_stream.simps recv_exact_def recv_exact_loop.simps BUFFER_SIZE_def
        unpack_II_def be_nat_def)
  from corrupt_frame [OF h u d n, of "Map.empty([7] \<mapsto> [7])" "Inr \<circ> Some" True]
    corrupt_frame [OF h u d n, of Some "Inr \<circ> (Map.empty([7] \<mapsto> [7 :: byte]))" True] rest
  show ?thesis by simp
qed

text \<open>
  C2 as stated fails: under a codec for which the first payload does not decompress and the
  second does, the loop prints the failure of the first frame and ends; the second frame
  stays on the socket.
\<close>

theorem corrupt_frame_counterexample:
  "receive_stream (Map.empty([7] \<mapsto> [7])) (Inr \<circ> Some) True
     [Chunk [0, 0, 0, 1, 0, 0, 0, 100, 9], Chunk [0, 0, 0, 1, 0, 0, 0, 100, 7]]
   = ([LogReceiveError], [Chunk [0, 0, 0, 1, 0, 0, 0, 100, 7]])"
  by (simp add: receive_stream.simps recv_exact_def recv_exact_loop.simps BUFFER_SIZE_def
      unpack_II_def be_nat_def)

subsection \<open>Mouse buttons\<close>

text \<open>
  C10.  A \<open>mouse_click\<close> command whose button is anything but the string \<open>left\<close> is
  carried out on the right button: a press when the action is the string \<open>press\<close>, a
  release otherwise.  No button value is refused or skipped.
\<close>

theorem click_other_button_is_right:
  assumes "getitem cmd ''type'' = Inr (JStr ''mouse_click'')"
    and "getitem cmd ''button'' = Inr b" and "b \<noteq> JStr ''left''"
    and "getitem cmd ''action'' = Inr a"
  shows "execute_command cmd =
         [if a = JStr ''press'' then Mouse_press Button_right else Mouse_release Button_right]"
  using assms by (simp add: execute_command_def execute_body_def)

theorem click_other_button_is_right_witness:
  "execute_command (JObj [(''type'', JStr ''mouse_click''), (''button'', JStr ''middle''),
      (''action'', JStr ''press'')] :: unit json) = [Mouse_press Button_right] \<and>
   execute_command (JObj [(''type'', JStr ''mouse_click''), (''button'', JInt 7),
      (''action'', JStr ''up'')] :: unit json) = [Mouse_release Button_right]"
  using click_other_button_is_right [of "JObj [(''type'', JStr ''mouse_click''),
      (''button'', JStr ''middle''), (''action'', JStr ''press'')] :: unit json"
      "JStr ''middle''" "JStr ''press''"]
    click_other_button_is_right [of "JObj [(''type'', JStr ''mouse_click''),
      (''button'', JInt 7), (''action'', JStr ''up'')] :: unit json"
      "JInt 7" "JStr ''up''"]
  by simp

subsection \<open>Dead viewers\<close>

lemma remove_clients_filter:
  "\<forall>y \<in> set ys. ok y \<Longrightarrow>
   remove_clients (filter (\<lambda>c. \<not> ok c) xs) (ys @ xs) = Inr (ys @ filter ok xs)"
proof (induction xs arbitrary: ys)
  case Nil
  then show ?case by simp
next
  case (Cons x xs)
  show ?case
  proof (cases "ok x")
    case True
    with Cons.prems have "\<forall>y \<in> set (ys @ [x]). ok y" by simp
    from Cons.IH [OF this] True show ?thesis by simp
  next
    case False
    with Cons.prems have "x \<notin> set ys" by auto
    then have "remove1 x (ys @ x # xs) = ys @ xs" by (simp add: remove1_append)
    with False Cons.IH [OF Cons.prems] show ?thesis by simp
  qed
qed

lemma send_to_all_filter:
  "send_to_all ok packet clients =
   (map (\<lambda>c. (c, packet)) (filter ok clients), filter (\<lambda>c. \<not> ok c) clients)"
  by (induction clients) auto

text \<open>
  C7.  In a broadcast cycle the pass over the viewers runs over the whole list: every viewer
  whose write succeeds gets the packet (header and payload), and the viewers whose write
  fails are only collected.  The removals come after the pass and none of them fails, so
  the cycle ends with the list of exactly the viewers whose write succeeded, in their order.
\<close>

theorem broadcast_drops_dead_after_pass:
  assumes "pack_II (length data) scale_pct = Some header"
  shows "send_to_all ok (header @ data) clients =
           (map (\<lambda>c. (c, header @ data)) (filter ok clients), filter (\<lambda>c. \<not> ok c) clients) \<and>
         broadcast ok scale_pct data clients =
           Inr (map (\<lambda>c. (c, header @ data)) (filter ok clients), filter ok clients)"
  using assms remove_clients_filter [of "[]" ok clients]
  by (simp add: broadcast_def send_to_all_filter)

theorem broadcast_drops_dead_after_pass_witness:
  "broadcast (\<lambda>c. c \<noteq> (2::nat)) 100 [7, 7] [1, 2, 3] =
     Inr ([(1, [0, 0, 0, 2, 0, 0, 0, 100, 7, 7]), (3, [0, 0, 0, 2, 0, 0, 0, 100, 7, 7])], [1, 3])"
proof -
  have "pack_II (length [7, 7 :: byte]) 100 = Some [0, 0, 0, 2, 0, 0, 0, 100]"
    by (simp add: pack_II_def pack_I_def)
  from broadcast_drops_dead_after_pass [OF this, of "\<lambda>c. c \<noteq> (2::nat)" "[1, 2, 3]"]
  show ?thesis by simp
qed

subsection \<open>Key names\<close>

text \<open>The table that \<open>_parse_key\<close> builds, written out.\<close>

lemma special_keys_table:
  "special_keys =
     [(''shift'', Key_shift), (''ctrl'', Key_ctrl), (''alt'', Key_alt), (''enter'', Key_enter),
      (''backspace'', Key_backspace), (''tab'', Key_tab), (''escape'', Key_esc),
      (''space'', Key_space), (''up'', Key_up), (''down'', Key_down), (''left'', Key_left),
      (''right'', Key_right), (''delete'', Key_delete), (''home'', Key_home),
      (''end'', Key_end), (''page_up'', Key_page_up), (''page_down'', Key_page_down),
      (''f1'', Key_f 1), (''f2'', Key_f 2), (''f3'', Key_f 3), (''f4'', Key_f 4),
      (''f5'', Key_f 5), (''f6'', Key_f 6), (''f7'', Key_f 7), (''f8'', Key_f 8),
      (''f9'', Key_f 9), (''f10'', Key_f 10), (''f11'', Key_f 11), (''f12'', Key_f 12)]"
  by code_simp

lemma special_keys_lower: "\<forall>n \<in> set (map fst special_keys). lower n = n"
  by code_simp

lemma special_keys_distinct: "distinct (map fst special_keys)"
  by code_simp

lemma special_keys_length: "\<forall>n \<in> set (map fst special_keys). 2 \<le> length n"
  by code_simp

lemma parse_key_table: "(lower s, k) \<in> set special_keys \<Longrightarrow> parse_key s = Special k"
proof -
  assume "(lower s, k) \<in> set special_keys"
  then have "map_of special_keys (lower s) = Some k" using special_keys_distinct by simp
  then show ?thesis by (simp add: parse_key_def)
qed

lemma parse_key_other: "lower s \<notin> set (map fst special_keys) \<Longrightarrow> parse_key s = Verbatim s"
  by (simp add: parse_key_def map_of_eq_None_iff [THEN iffD2])

lemma single_not_in_table: "length s = 1 \<Longrightarrow> lower s \<notin> set (map fst special_keys)"
proof -
  assume "length s = 1"
  then have "length (lower s) = 1" by (simp add: lower_def)
  then show ?thesis using special_keys_length by fastforce
qed

lemma execute_key_command:
  "execute_command (JObj [(''type'', JStr ''key''), (''key'', JStr s), (''action'', a)]) =
     (case keyboard_resolve (parse_key s) of
        Inl e \<Rightarrow> [Log_control_error]
      | Inr key \<Rightarrow> [if a = JStr ''press'' then Key_press key else Key_release key])"
  by (simp add: execute_command_def execute_body_def split: sum.splits)

text \<open>
  C6, as the code has it.  The name is looked up after lower-casing: a string whose
  lower-case form is in the table resolves to the special key of that entry, whatever its
  case, and a \<open>key\<close> command with it presses or releases that key.  A string of one
  character is never in the table; it is returned as it is and handed to the keyboard
  controller.  Every other string is returned as it is too; the keyboard controller refuses
  it, so the command only prints a control error and nothing is injected.
\<close>

theorem parse_key_resolution:
  "((lower s, k) \<in> set special_keys \<longrightarrow>
      parse_key s = Special k \<and>
      execute_command (JObj [(''type'', JStr ''key''), (''key'', JStr s), (''action'', a)]) =
        [if a = JStr ''press'' then Key_press (Special k) else Key_release (Special k)]) \<and>
   (length s = 1 \<longrightarrow>
      lower s \<notin> set (map fst special_keys) \<and> parse_key s = Verbatim s \<and>
      execute_command (JObj [(''type'', JStr ''key''), (''key'', JStr s), (''action'', a)]) =
        [if a = JStr ''press'' then Key_press (Verbatim s) else Key_release (Verbatim s)]) \<and>
   (lower s \<notin> set (map fst special_keys) \<and> length s \<noteq> 1 \<longrightarrow>
      parse_key s = Verbatim s \<and>
      execute_command (JObj [(''type'', JStr ''key''), (''key'', JStr s), (''action'', a)]) =
        [Log_control_error])"
proof (intro conjI impI)
  assume t: "(lower s, k) \<in> set special_keys"
  then show "parse_key s = Special k" by (rule parse_key_table)
  with t show "execute_command
      (JObj [(''type'', JStr ''key''), (''key'', JStr s), (''action'', a)]) =
        [if a = JStr ''press'' then Key_press (Special k) else Key_release (Special k)]"
    by (simp add: execute_key_command keyboard_resolve_def)
next
  assume l: "length s = 1"
  then show n: "lower s \<notin> set (map fst special_keys)" by (rule single_not_in_table)
  then show p: "parse_key s = Verbatim s" by (rule parse_key_other)
  from l p show "execute_command
      (JObj [(''type'', JStr ''key''), (''key'', JStr s), (''action'', a)]) =
        [if a = JStr ''press'' then Key_press (Verbatim s) else Key_release (Verbatim s)]"
    by (simp add: execute_key_command keyboard_resolve_def)
next
  assume o: "lower s \<notin> set (map fst special_keys) \<and> length s \<noteq> 1"
  then show p: "parse_key s = Verbatim s" by (simp add: parse_key_other)
  from o p show "execute_command
      (JObj [(''type'', JStr ''key''), (''key'', JStr s), (''action'', a)]) =
        [Log_control_error]"
    by (simp add: execute_key_command keyboard_resolve_def)
qed

text \<open>
  Three names: \<open>F12\<close> is found as \<open>f12\<close>; the character \<open>A\<close> is pressed as it is;
  \<open>hello\<close> is refused by the controller.
\<close>

theorem parse_key_resolution_witness:
  "parse_key ''F12'' = Special (Key_f 12) \<and>
   execute_command (JObj [(''type'', JStr ''key''), (''key'', JStr ''F12''),
      (''action'', JStr ''press'')] :: unit json) = [Key_press (Special (Key_f 12))] \<and>
   parse_key ''A'' = Verbatim ''A'' \<and>
   execute_command (JObj [(''type'', JStr ''key''), (''key'', JStr ''A''),
      (''action'', JStr ''release'')] :: unit json) = [Key_release (Verbatim ''A'')] \<and>
   parse_key ''hello'' = Verbatim ''hello'' \<and>
   execute_command (JObj [(''type'', JStr ''key''), (''key'', JStr ''hello''),
      (''action'', JStr ''press'')] :: unit json) = [Log_control_error]"
proof -
  have a: "(lower ''F12'', Key_f 12) \<in> set special_keys" by code_simp
  have b: "length ''A'' = 1" by simp
  have c: "lower ''hello'' \<notin> set (map fst special_keys) \<and> length ''hello'' \<noteq> 1"
    by code_simp
  from parse_key_resolution [of "''F12''" "Key_f 12" "JStr ''press'' :: unit json"]
    parse_key_resolution [of "''A''" _ "JStr ''release'' :: unit json"]
    parse_key_resolution [of "''hello''" _ "JStr ''press'' :: unit json"] a b c
  show ?thesis by simp
qed

text \<open>
  C6 as stated fails: \<open>SHIFT\<close> has five characters and is not a name of the table, whose
  names are all in lower case, yet it does not resolve to a no-op.  It is looked up as
  \<open>shift\<close>, and a \<open>key\<close> command carrying it presses the shift key.
\<close>

theorem parse_key_counterexample:
  "''SHIFT'' \<notin> set (map fst special_keys) \<and>
   parse_key ''SHIFT'' = Special Key_shift \<and>
   execute_command (JObj [(''type'', JStr ''key''), (''key'', JStr ''SHIFT''),
      (''action'', JStr ''press'')] :: unit json) = [Key_press (Special Key_shift)]"
proof -
  have "''SHIFT'' \<notin> set (map fst special_keys)" by code_simp
  moreover have "parse_key ''SHIFT'' = Special Key_shift" by code_simp
  ultimately show ?thesis by (simp add: execute_key_command keyboard_resolve_def)
qed

subsection \<open>Malformed commands\<close>

text \<open>The two ways out of the loop that the socket decides: the peer closed, a read failed.\<close>

lemma handle_client_eof: "handle_client loads [] = ([Close_client], [])"
  by (simp add: handle_client.simps)

lemma handle_client_socket_error: "handle_client loads (SockErr # s) = ([Close_client], s)"
  by (simp add: handle_client.simps)

text \<open>
  C1, as the code has it.  Let the chunks \<open>ds\<close> arrive, each returned whole by one
  \<open>recv\<close>, and the peer close after them.  The loop executes the commands of the chunks
  up to the first one that does not parse (\<open>json.loads\<close> raises); there it ends and the
  connection is closed, and the chunks behind it are never read.  A chunk that parses is
  executed and the loop goes on; \<open>_execute_command\<close> itself never raises, so a JSON
  value that is no executable command (a member is missing, the value is no object) only
  prints a control error.
\<close>

theorem malformed_chunk_closes:
  assumes "\<forall>d \<in> set ds. d \<noteq> [] \<and> length d \<le> BUFFER_SIZE"
  shows "handle_client loads (map Chunk ds) =
         (concat (map (\<lambda>d. case loads d of Some cmd \<Rightarrow> execute_command cmd | None \<Rightarrow> [])
                    (takeWhile (\<lambda>d. loads d \<noteq> None) ds)) @ [Close_client],
          map Chunk (drop 1 (dropWhile (\<lambda>d. loads d \<noteq> None) ds)))"
  using assms
proof (induction ds)
  case Nil
  show ?case by (simp add: handle_client_eof)
next
  case (Cons d ds)
  then have d: "d \<noteq> []" "length d \<le> BUFFER_SIZE" by simp_all
  from Cons have IH: "handle_client loads (map Chunk ds) =
         (concat (map (\<lambda>d. case loads d of Some cmd \<Rightarrow> execute_command cmd | None \<Rightarrow> [])
                    (takeWhile (\<lambda>d. loads d \<noteq> None) ds)) @ [Close_client],
          map Chunk (drop 1 (dropWhile (\<lambda>d. loads d \<noteq> None) ds)))" by simp
  show ?case
  proof (cases "loads d")
    case None
    with d show ?thesis
      by (simp add: handle_client.simps [of loads "Chunk d # map Chunk ds"])
  next
    case (Some cmd)
    with d IH show ?thesis
      by (simp add: handle_client.simps [of loads "Chunk d # map Chunk ds"])
  qed
qed

text \<open>
  Two runs with \<open>json.loads\<close> as it is on the three texts involved.  A cut-off record
  closes the connection before the sound record behind it is read; a record without
  coordinates is logged and the sound record behind it is executed.
\<close>

theorem malformed_chunk_closes_witness:
  \<open>handle_client
     (Map.empty
       (ascii ''{"type": "mouse_move"}'' \<mapsto> JObj [(''type'', JStr ''mouse_move'')],
        ascii ''{"type": "mouse_scroll", "dx": 0, "dy": 1}'' \<mapsto>
          JObj [(''type'', JStr ''mouse_scroll''), (''dx'', JInt 0), (''dy'', JInt 1)]))
     [Chunk (ascii ''{"type": "mouse_sc''),
      Chunk (ascii ''{"type": "mouse_scroll", "dx": 0, "dy": 1}'')]
   = ([Close_client :: unit call], [Chunk (ascii ''{"type": "mouse_scroll", "dx": 0, "dy": 1}'')]) \<and>
   handle_client
     (Map.empty
       (ascii ''{"type": "mouse_move"}'' \<mapsto> JObj [(''type'', JStr ''mouse_move'')],
        ascii ''{"type": "mouse_scroll", "dx": 0, "dy": 1}'' \<mapsto>
          JObj [(''type'', JStr ''mouse_scroll''), (''dx'', JInt 0), (''dy'', JInt 1)]))
     [Chunk (ascii ''{"type": "mouse_move"}''),
      Chunk (ascii ''{"type": "mouse_scroll", "dx": 0, "dy": 1}'')]
   = ([Log_control_error, Mouse_scroll (JInt 0) (JInt 1), Close_client :: unit call], [])\<close>
proof -
  let ?good = \<open>ascii ''{"type": "mouse_scroll", "dx": 0, "dy": 1}''\<close>
  let ?part = \<open>ascii ''{"type": "mouse_move"}''\<close>
  let ?cut = \<open>ascii ''{"type": "mouse_sc''\<close>
  let ?loads = "Map.empty
       (?part \<mapsto> JObj [(''type'', JStr ''mouse_move'')],
        ?good \<mapsto> JObj [(''type'', JStr ''mouse_scroll''), (''dx'', JInt 0), (''dy'', JInt 1)])
       :: bytes \<Rightarrow> unit json option"
  have a: "\<forall>d \<in> set [?cut, ?good]. d \<noteq> [] \<and> length d \<le> BUFFER_SIZE"
    by (simp add: ascii_def BUFFER_SIZE_def)
  have b: "\<forall>d \<in> set [?part, ?good]. d \<noteq> [] \<and> length d \<le> BUFFER_SIZE"
    by (simp add: ascii_def BUFFER_SIZE_def)
  have l: "?loads ?cut = None" "?loads ?part = Some (JObj [(''type'', JStr ''mouse_move'')])"
    "?loads ?good
       = Some (JObj [(''type'', JStr ''mouse_scroll''), (''dx'', JInt 0), (''dy'', JInt 1)])"
    by (simp_all add: ascii_def)
  have e: "execute_command (JObj [(''type'', JStr ''mouse_move'')] :: unit json)
      = [Log_control_error]"
    "execute_command
       (JObj [(''type'', JStr ''mouse_scroll''), (''dx'', JInt 0), (''dy'', JInt 1)] :: unit json)
      = [Mouse_scroll (JInt 0) (JInt 1)]"
    by (simp_all add: execute_command_def execute_body_def)
  from malformed_chunk_closes [OF a, of ?loads] malformed_chunk_closes [OF b, of ?loads] l e
  show ?thesis by simp
qed

text \<open>
  C1 as stated fails: a cut-off record arrives, then a sound one.  The loop leaves at
  the first, the connection is closed, and the second is never read.
\<close>

theorem malformed_chunk_counterexample:
  \<open>handle_client
     (Map.empty(ascii ''{"type": "mouse_scroll", "dx": 0, "dy": 1}'' \<mapsto>
        JObj [(''type'', JStr ''mouse_scroll''), (''dx'', JInt 0), (''dy'', JInt 1)] :: unit json))
     [Chunk (ascii ''{"type": "mouse_sc''),
      Chunk (ascii ''{"type": "mouse_scroll", "dx": 0, "dy": 1}'')]
   = ([Close_client], [Chunk (ascii ''{"type": "mouse_scroll", "dx": 0, "dy": 1}'')])\<close>
  by (simp add: handle_client.simps BUFFER_SIZE_def ascii_def)

text \<open>The sound record alone is executed.\<close>

lemma sound_command_example:
  \<open>handle_client
     (Map.empty(ascii ''{"type": "mouse_scroll", "dx": 0, "dy": 1}'' \<mapsto>
        JObj [(''type'', JStr ''mouse_scroll''), (''dx'', JInt 0), (''dy'', JInt 1)] :: unit json))
     [Chunk (ascii ''{"type": "mouse_scroll", "dx": 0, "dy": 1}'')]
   = ([Mouse_scroll (JInt 0) (JInt 1), Close_client], [])\<close>
  by (simp add: handle_client.simps BUFFER_SIZE_def ascii_def execute_command_def execute_body_def)

subsection \<open>Mouse moves\<close>

text \<open>
  C4, as the code has it.  A connected client whose socket takes the write sends, for
  \<open>send_mouse_move(x, y)\<close>, one record of type \<open>mouse_move\<close> with the coordinates
  \<open>int(x / scale)\<close> and \<open>int(y / scale)\<close>: \<open>ix\<close> and \<open>iy\<close>, whatever the float
  division and the truncation make of the operands.  The channel has no framing: the server
  parses each chunk that \<open>recv\<close> returns as one command.  When the chunk it receives is
  that record, the byte string the client wrote last, and the JSON library reads back what
  it wrote, the server sets the pointer position to exactly \<open>(ix, iy)\<close> and goes on
  reading.
\<close>

theorem mouse_move_round_trip:
  assumes "connected c" and "link_up c"
    and "fdiv x (scale c) = Inr qx" and "ftrunc qx = Inr ix"
    and "fdiv y (scale c) = Inr qy" and "ftrunc qy = Inr iy"
    and "cmd = JObj [(''type'', JStr ''mouse_move''), (''x'', JInt ix), (''y'', JInt iy)]"
    and "loads (dumps cmd) = Some cmd"
    and "dumps cmd \<noteq> []" and "length (dumps cmd) \<le> BUFFER_SIZE"
  shows "\<exists>c'. send_mouse_move fdiv ftrunc dumps c x y = Inr c' \<and>
           wire c' = wire c @ [dumps cmd] \<and>
           handle_client loads (Chunk (last (wire c')) # s) =
             (Set_position (JInt ix) (JInt iy) # fst (handle_client loads s),
              snd (handle_client loads s))"
proof -
  have sent: "send_mouse_move fdiv ftrunc dumps c x y = Inr (c\<lparr>wire := wire c @ [dumps cmd]\<rparr>)"
    using assms(1-6) by (simp add: send_mouse_move_def send_def assms(7))
  have "execute_command cmd = [Set_position (JInt ix) (JInt iy)]"
    by (simp add: assms(7) execute_command_def execute_body_def)
  with assms(8-10) have "handle_client loads (Chunk (dumps cmd) # s) =
           (Set_position (JInt ix) (JInt iy) # fst (handle_client loads s),
            snd (handle_client loads s))"
    by (simp add: handle_client.simps [of loads "Chunk (dumps cmd) # s"] split: prod.splits)
  with sent show ?thesis by simp
qed

text \<open>
  \<open>send_mouse_move(100, 200)\<close> with the scale 0.5, in binary64 arithmetic and with the
  text that \<open>json.dumps\<close> writes: the record sent is \<open>mouse_move(x=200, y=400)\<close>, and the
  server, receiving it as one chunk, moves the pointer to (200, 400).
\<close>

lemma mouse_move_sent:
  \<open>send_mouse_move float_div float_int (json_dumps id)
       \<lparr>connected = True, scale = Finite (1 / 2), link_up = True, wire = []\<rparr> 100 200
     = Inr \<lparr>connected = True, scale = Finite (1 / 2), link_up = True,
            wire = [ascii ''{"type": "mouse_move", "x": 200, "y": 400}'']\<rparr>\<close>
  by code_simp

theorem mouse_move_round_trip_witness:
  \<open>send_mouse_move float_div float_int (json_dumps id)
       \<lparr>connected = True, scale = Finite (1 / 2), link_up = True, wire = []\<rparr> 100 200
     = Inr \<lparr>connected = True, scale = Finite (1 / 2), link_up = True,
            wire = [ascii ''{"type": "mouse_move", "x": 200, "y": 400}'']\<rparr> \<and>
   handle_client
       (Map.empty(ascii ''{"type": "mouse_move", "x": 200, "y": 400}'' \<mapsto>
          JObj [(''type'', JStr ''mouse_move''), (''x'', JInt 200), (''y'', JInt 400)]))
       [Chunk (ascii ''{"type": "mouse_move", "x": 200, "y": 400}'')]
     = ([Set_position (JInt 200) (JInt 400), Close_client :: string call], [])\<close>
proof -
  let ?text = \<open>ascii ''{"type": "mouse_move", "x": 200, "y": 400}''\<close>
  let ?cmd = "JObj [(''type'', JStr ''mouse_move''), (''x'', JInt 200), (''y'', JInt 400)]
      :: string json"
  let ?c = "\<lparr>connected = True, scale = Finite (1 / 2), link_up = True, wire = []\<rparr>"
  let ?loads = "Map.empty(?text \<mapsto> ?cmd)"
  have c: "connected ?c" "link_up ?c" by simp_all
  have x: "float_div 100 (scale ?c) = Inr (Finite 200)" "float_int (Finite 200) = Inr 200"
    by code_simp+
  have y: "float_div 200 (scale ?c) = Inr (Finite 400)" "float_int (Finite 400) = Inr 400"
    by code_simp+
  have d: "json_dumps id ?cmd = ?text" by code_simp
  have l: "?loads (json_dumps id ?cmd) = Some ?cmd" by (simp add: d)
  have n: "json_dumps id ?cmd \<noteq> []" "length (json_dumps id ?cmd) \<le> BUFFER_SIZE"
    by (simp_all add: d ascii_def BUFFER_SIZE_def)
  have e: "handle_client ?loads [] = ([Close_client], [])"
    by (simp add: handle_client.simps)
  from mouse_move_round_trip [where c = ?c and fdiv = float_div and ftrunc = float_int
      and x = 100 and y = 200 and qx = "Finite 200" and qy = "Finite 400"
      and ix = 200 and iy = 400
      and cmd = ?cmd and loads = ?loads and dumps = "json_dumps id" and s = "[]",
      OF c x(1) x(2) y(1) y(2) refl l n]
  obtain c' where c': "send_mouse_move float_div float_int (json_dumps id) ?c 100 200 = Inr c'"
      "wire c' = wire ?c @ [json_dumps id ?cmd]"
      "handle_client ?loads (Chunk (last (wire c')) # []) =
         (Set_position (JInt 200) (JInt 400) # fst (handle_client ?loads []),
          snd (handle_client ?loads []))"
    by blast
  from c'(2) d have w: "last (wire c') = ?text" by simp
  from c'(3) have "handle_client ?loads [Chunk ?text]
      = ([Set_position (JInt 200) (JInt 400), Close_client], [])"
    unfolding w e by simp
  with mouse_move_sent show ?thesis by blast
qed

text \<open>
  C4 as stated fails: the client makes the same call twice and both writes succeed, and the
  network hands the two records to the server in one read.  The two texts together are no
  JSON text, \<open>json.loads\<close> raises, and the server closes the connection without moving
  the pointer once.
\<close>

theorem mouse_move_coalesced_counterexample:
  \<open>send_mouse_move float_div float_int (json_dumps id)
       \<lparr>connected = True, scale = Finite (1 / 2), link_up = True, wire = []\<rparr> 100 200
     = Inr \<lparr>connected = True, scale = Finite (1 / 2), link_up = True,
            wire = [ascii ''{"type": "mouse_move", "x": 200, "y": 400}'']\<rparr> \<and>
   send_mouse_move float_div float_int (json_dumps id)
       \<lparr>connected = True, scale = Finite (1 / 2), link_up = True,
        wire = [ascii ''{"type": "mouse_move", "x": 200, "y": 400}'']\<rparr> 100 200
     = Inr \<lparr>connected = True, scale = Finite (1 / 2), link_up = True,
            wire = [ascii ''{"type": "mouse_move", "x": 200, "y": 400}'',
                    ascii ''{"type": "mouse_move", "x": 200, "y": 400}'']\<rparr> \<and>
   handle_client
       (Map.empty(ascii ''{"type": "mouse_move", "x": 200, "y": 400}'' \<mapsto>
          JObj [(''type'', JStr ''mouse_move''), (''x'', JInt 200), (''y'', JInt 400)]))
       [Chunk (concat [ascii ''{"type": "mouse_move", "x": 200, "y": 400}'',
                       ascii ''{"type": "mouse_move", "x": 200, "y": 400}''])]
     = ([Close_client :: string call], [])\<close>
proof (intro conjI)
  show \<open>handle_client
       (Map.empty(ascii ''{"type": "mouse_move", "x": 200, "y": 400}'' \<mapsto>
          JObj [(''type'', JStr ''mouse_move''), (''x'', JInt 200), (''y'', JInt 400)]))
       [Chunk (concat [ascii ''{"type": "mouse_move", "x": 200, "y": 400}'',
                       ascii ''{"type": "mouse_move", "x": 200, "y": 400}''])]
     = ([Close_client :: string call], [])\<close>
    by (simp add: handle_client.simps BUFFER_SIZE_def ascii_def)
qed code_simp+

text \<open>Handed over one by one, the same two records move the pointer twice.\<close>

lemma mouse_move_twice_example:
  \<open>handle_client
       (Map.empty(ascii ''{"type": "mouse_move", "x": 200, "y": 400}'' \<mapsto>
          JObj [(''type'', JStr ''mouse_move''), (''x'', JInt 200), (''y'', JInt 400)]))
       [Chunk (ascii ''{"type": "mouse_move", "x": 200, "y": 400}''),
        Chunk (ascii ''{"type": "mouse_move", "x": 200, "y": 400}'')]
     = ([Set_position (JInt 200) (JInt 400), Set_position (JInt 200) (JInt 400),
         Close_client :: string call], [])\<close>
  by (simp add: handle_client.simps BUFFER_SIZE_def ascii_def execute_command_def
      execute_body_def)

text \<open>
  The division is the rounded one: at the scale 800 / 1920, itself a rounded quotient, the
  position 5 is sent as 12.
\<close>

lemma float_div_rounds_example:
  "float_div 800 (Finite 1920) = Inr (Finite (7505999378950827 / 18014398509481984)) \<and>
   float_div 5 (Finite (7505999378950827 / 18014398509481984)) = Inr (Finite 12) \<and>
   float_int (Finite 12) = Inr 12"
  by code_simp

subsection \<open>The file channel\<close>

lemma split4:
  fixes n :: nat
  shows "((n div 16777216 * 256 + n div 65536 mod 256) * 256 + n div 256 mod 256) * 256
      + n mod 256 = n"
proof -
  have a: "n div 65536 = n div 256 div 256" by (simp add: div_mult2_eq)
  have b: "n div 16777216 = n div 256 div 256 div 256" by (simp add: div_mult2_eq)
  show ?thesis unfolding a b by (simp add: div_mult_mod_eq mult.commute)
qed

lemma be_nat_pack_I: "n < 2 ^ 32 \<Longrightarrow> be_nat (pack_I n) = n"
proof -
  assume "n < 2 ^ 32"
  then have "n div 16777216 < 256" by simp
  then have "n div 16777216 mod 256 = n div 16777216" by simp
  with split4 [of n] show ?thesis
    by (simp add: be_nat_def pack_I_def unat_of_nat)
qed

text \<open>What \<open>struct.pack\<close> wrote, \<open>struct.unpack\<close> reads back.\<close>

lemma unpack_pack_II: "pack_II a b = Some header \<Longrightarrow> unpack_II header = Some (a, b)"
proof -
  assume "pack_II a b = Some header"
  then have h: "a < 2 ^ 32" "b < 2 ^ 32" "header = pack_I a @ pack_I b"
    by (auto simp: pack_II_def split: if_splits)
  have "length (pack_I a) = 4" "length (pack_I b) = 4" by (simp_all add: pack_I_def)
  with h show ?thesis by (simp add: unpack_II_def be_nat_pack_I)
qed

text \<open>The sender's chunks are the file, cut in pieces.\<close>

lemma concat_read_chunks: "concat (read_chunks content) = content"
proof (induction content rule: read_chunks.induct)
  case (1 content)
  show ?case
  proof (cases "take BUFFER_SIZE content = []")
    case True
    then have "content = []" by (auto simp: BUFFER_SIZE_def)
    then show ?thesis by (simp add: read_chunks.simps)
  next
    case False
    from "1.IH" [OF refl False] False show ?thesis
      by (simp add: read_chunks.simps [of content] Let_def)
  qed
qed

text \<open>
  The copy loop on a socket that delivers chunks, none of them empty, and is then closed by
  the peer: the loop writes the first \<open>file_size - received\<close> bytes that arrive, however
  they are cut, and when fewer arrive it writes them all and reads to the end.
\<close>

lemma copy_loop_orderly:
  "\<forall>r \<in> set s. \<exists>c. r = Chunk c \<and> c \<noteq> [] \<Longrightarrow>
   \<exists>s'. copy_loop file_size received f s =
          (Inr (), f @ take (file_size - received) (pending s), s') \<and>
        (length (pending s) < file_size - received \<longrightarrow> s' = [])"
proof (induction file_size received f s rule: copy_loop.induct)
  case (1 file_size received f s)
  show ?case
  proof (cases "received < file_size")
    case False
    then show ?thesis by (simp add: copy_loop.simps)
  next
    case True
    define n where "n = min BUFFER_SIZE (file_size - received)"
    from True have n: "0 < n" "n \<le> file_size - received"
      by (simp_all add: n_def BUFFER_SIZE_def)
    show ?thesis
    proof (cases s)
      case Nil
      with True show ?thesis by (simp add: copy_loop.simps)
    next
      case (Cons r t)
      with "1.prems" obtain c where c: "r = Chunk c" "c \<noteq> []" by auto
      from "1.prems" Cons have t: "\<forall>r \<in> set t. \<exists>c. r = Chunk c \<and> c \<noteq> []" by simp
      define chunk where "chunk = take n c"
      define s1 where "s1 = (if length c \<le> n then t else Chunk (drop n c) # t)"
      have rv: "recv (min BUFFER_SIZE (file_size - received)) s = (Some chunk, s1)"
        using Cons c by (simp add: chunk_def s1_def n_def)
      have chunk: "chunk \<noteq> []" "length chunk \<le> file_size - received"
        using n c(2) by (cases c; simp add: chunk_def)+
      have s1: "\<forall>r \<in> set s1. \<exists>c. r = Chunk c \<and> c \<noteq> []"
        using t by (simp add: s1_def)
      have p: "pending s = chunk @ pending s1"
        using Cons c by (simp add: chunk_def s1_def)
      have step: "copy_loop file_size received f s =
                  copy_loop file_size (received + length chunk) (f @ chunk) s1"
        using True rv chunk(1) by (simp add: copy_loop.simps [of file_size received f s])
      from "1.IH" [OF True rv [symmetric] refl chunk(1) s1] obtain s' where
        s': "copy_loop file_size (received + length chunk) (f @ chunk) s1 =
             (Inr (), (f @ chunk) @ take (file_size - (received + length chunk)) (pending s1), s')"
            "length (pending s1) < file_size - (received + length chunk) \<longrightarrow> s' = []"
        by blast
      have tk: "chunk @ take (file_size - (received + length chunk)) (pending s1)
          = take (file_size - received) (pending s)"
        using chunk(2) by (simp add: p)
      have "copy_loop file_size received f s =
          (Inr (), f @ take (file_size - received) (pending s), s')"
        using step s'(1) tk by simp
      moreover have "length (pending s) < file_size - received \<longrightarrow> s' = []"
        using s'(2) by (simp add: p)
      ultimately show ?thesis by blast
    qed
  qed
qed

lemma pending_chunks: "pending (map Chunk cs) = concat cs"
  by (induction cs) simp_all

text \<open>
  C9.  The header and the name have been read, the file can be opened, and the peer closes
  the connection after fewer than \<open>file_size\<close> bytes of content (they arrive in the chunks
  \<open>cs\<close>).  Then the copy loop is left, the shortened file stays on disk, and the only
  message is the one of a received file, with the full expected size: no error is raised
  or printed.
\<close>

theorem truncated_file_reported_received:
  assumes "recv 8 s = (Some header, s1)"
    and "unpack_II header = Some (name_len, file_size)"
    and "recv name_len s1 = (Some name_bytes, map Chunk cs)"
    and "decode name_bytes = Some filename"
    and "can_open (join filename)"
    and "[] \<notin> set cs"
    and "length (concat cs) < file_size"
  shows "receive_file decode join can_open s disk =
         (disk(join filename \<mapsto> concat cs), [Log_received filename file_size], [])"
proof -
  from assms(6) have "\<forall>r \<in> set (map Chunk cs). \<exists>c. r = Chunk c \<and> c \<noteq> []" by auto
  from copy_loop_orderly [OF this, of file_size 0 "[]"] assms(7)
  have "copy_loop file_size 0 [] (map Chunk cs) = (Inr (), concat cs, [])"
    by (auto simp: pending_chunks)
  with assms(1-5) show ?thesis by (simp add: receive_file_def)
qed

text \<open>
  A file named \<open>a\<close> is announced with five bytes; three arrive, then the peer closes.
\<close>

theorem truncated_file_reported_received_witness:
  "receive_file Some id (\<lambda>p. True)
     [Chunk [0, 0, 0, 1, 0, 0, 0, 5, 97], Chunk [1, 2], Chunk [3]] Map.empty
   = ([ [97] \<mapsto> [1, 2, 3]], [Log_received [97] 5], [])"
proof -
  have h: "recv 8 [Chunk [0, 0, 0, 1, 0, 0, 0, 5, 97], Chunk [1, 2], Chunk [3]]
      = (Some [0, 0, 0, 1, 0, 0, 0, 5], [Chunk [97], Chunk [1, 2], Chunk [3]])"
    by simp
  have u: "unpack_II [0, 0, 0, 1, 0, 0, 0, 5] = Some (1, 5)"
    by (simp add: unpack_II_def be_nat_def)
  have n: "recv 1 [Chunk [97], Chunk [1, 2], Chunk [3]] = (Some [97], map Chunk [ [1, 2], [3]])"
    by simp
  have d: "Some [97 :: byte] = Some [97]" by simp
  have o: "(\<lambda>p :: bytes. True) (id [97])" by simp
  have e: "[] \<notin> set [ [1, 2], [3 :: byte]]" by simp
  have l: "length (concat [ [1, 2], [3 :: byte]]) < 5" by simp
  from truncated_file_reported_received [where decode = Some and join = id
      and can_open = "\<lambda>p. True" and disk = Map.empty, OF h u n d _ e l]
  show ?thesis by simp
qed

text \<open>
  C3 is not what the code does.  The file \<open>a.txt\<close> with the content 1, 2, 3 is sent; the
  sender writes the header, the name and the content.  In the first run the network hands
  over the first four bytes of the header alone: \<open>client.recv(8)\<close> returns them,
  \<open>struct.unpack\<close> raises, and no file is written.  In the second run the name is cut
  after \<open>a.\<close>: \<open>client.recv(name_len)\<close> returns two bytes, so the file is called
  \<open>a.\<close> and holds \<open>txt\<close>, the rest of the name.  Only the content is read by a loop
  that joins partial reads.
\<close>

theorem receive_file_split_header:
  "send_file ascii ''a.txt'' [1, 2, 3]
     = (True, [ [0, 0, 0, 5, 0, 0, 0, 3], ascii ''a.txt'', [1, 2, 3]]) \<and>
   receive_file Some id (\<lambda>p. True)
     [Chunk [0, 0, 0, 5], Chunk ([0, 0, 0, 3] @ ascii ''a.txt'' @ [1, 2, 3])] Map.empty
     = (Map.empty, [Log_file_error], [Chunk ([0, 0, 0, 3] @ ascii ''a.txt'' @ [1, 2, 3])]) \<and>
   receive_file Some id (\<lambda>p. True)
     [Chunk ([0, 0, 0, 5, 0, 0, 0, 3] @ ascii ''a.''), Chunk (ascii ''txt'' @ [1, 2, 3])] Map.empty
     = ([ascii ''a.'' \<mapsto> ascii ''txt''], [Log_received (ascii ''a.'') 3], [Chunk [1, 2, 3]])"
  by (simp add: send_file_def pack_II_def pack_I_def read_chunks.simps BUFFER_SIZE_def
      receive_file_def unpack_II_def be_nat_def copy_loop.simps ascii_def Let_def)

text \<open>
  What does hold: when the header arrives in the first read and the name in the second, the
  content may be cut in any way (into chunks \<open>cs\<close>, none empty), and the file written is
  the content sent.
\<close>

lemma receive_file_content_chunking:
  assumes "send_file encode filename content = (True, sends)"
    and "decode (encode filename) = Some filename"
    and "can_open (join filename)"
    and "concat cs = content" and "[] \<notin> set cs"
  shows "\<exists>s'. receive_file decode join can_open
           (Chunk (hd sends) # Chunk (encode filename) # map Chunk cs) disk =
         (disk(join filename \<mapsto> content), [Log_received filename (length content)], s')"
proof -
  from assms(1) obtain header where
    h: "pack_II (length (encode filename)) (length content) = Some header" "hd sends = header"
    by (auto simp: send_file_def split: option.splits)
  from h(1) have len: "length header = 8"
    by (auto simp: pack_II_def pack_I_def split: if_splits)
  from assms(5) have o: "\<forall>r \<in> set (map Chunk cs). \<exists>c. r = Chunk c \<and> c \<noteq> []" by auto
  from copy_loop_orderly [OF o, of "length content" 0 "[]"] assms(4) obtain s' where
    c: "copy_loop (length content) 0 [] (map Chunk cs) = (Inr (), content, s')"
    by (auto simp: pending_chunks)
  from h len c assms(2,3) unpack_pack_II [OF h(1)] show ?thesis
    by (simp add: receive_file_def)
qed

text \<open>A length of 2^32 bytes or more does not fit the header: nothing is sent.\<close>

lemma send_file_too_large:
  "2 ^ 32 \<le> length content \<Longrightarrow> send_file encode filename content = (False, [])"
  by (simp add: send_file_def pack_II_def)

end
